theory Spec2Isabelle
  imports Complex_Main
begin

section \<open>JavaScript values\<close>

text \<open>
  The WebSocket handlers of the route files work on whatever \<^verbatim>\<open>JSON.parse\<close> returns, with no
  validation, so the values are modelled dynamically. A number is the double that the parser
  produces: its exact value, or an infinity for an overflowing literal (\<^verbatim>\<open>+0\<close> and \<^verbatim>\<open>-0\<close> are
  the same key of a \<^verbatim>\<open>Map\<close> and are both falsy, so they are one value here). An object or array
  carries the address of its allocation: two objects are the same \<^verbatim>\<open>Map\<close> key only when they are
  the same allocation.
\<close>

datatype jsnum = Finite_num rat | Pos_Infinity | Neg_Infinity

datatype jsval =
    JUndefined
  | JNull
  | JBool bool
  | JNumber jsnum
  | JString string
  | JArray nat "jsval list"
  | JObject nat "(string \<times> jsval) list"

text \<open>Truthiness as tested by \<^verbatim>\<open>if (deviceKey)\<close>.\<close>

fun truthy :: "jsval \<Rightarrow> bool" where
  "truthy JUndefined = False"
| "truthy JNull = False"
| "truthy (JBool b) = b"
| "truthy (JNumber n) = (n \<noteq> Finite_num 0)"
| "truthy (JString s) = (s \<noteq> [])"
| "truthy (JArray a xs) = True"
| "truthy (JObject a kvs) = True"

text \<open>
  Property access \<^verbatim>\<open>v.name\<close> and destructuring \<^verbatim>\<open>const { name } = v\<close>, for the names the handlers
  read (\<^verbatim>\<open>type\<close>, \<^verbatim>\<open>payload\<close>, \<^verbatim>\<open>deviceKey\<close>, \<^verbatim>\<open>status\<close>, \<^verbatim>\<open>screenId\<close>: none of them is defined
  on a prototype). On \<^verbatim>\<open>undefined\<close> and \<^verbatim>\<open>null\<close> it throws a TypeError (\<open>None\<close>); on another
  primitive or an array it yields \<^verbatim>\<open>undefined\<close>.
\<close>

fun get_property :: "jsval \<Rightarrow> string \<Rightarrow> jsval option" where
  "get_property JUndefined name = None"
| "get_property JNull name = None"
| "get_property (JObject a kvs) name =
     Some (case map_of kvs name of None \<Rightarrow> JUndefined | Some v \<Rightarrow> v)"
| "get_property v name = Some JUndefined"

section \<open>The connection registry: a JavaScript Map\<close>

text \<open>
  \<^verbatim>\<open>const screenConnections = new Map<string, WebSocket>()\<close>. A \<^verbatim>\<open>Map\<close> keeps its entries in
  insertion order, which the close handler's scan depends on: it is a list of entries.
  \<^verbatim>\<open>set\<close> on a present key replaces the value where the entry stands, on an absent key it
  appends; \<^verbatim>\<open>delete\<close> removes the entry of the key; \<^verbatim>\<open>get\<close> returns the value or, for an
  absent key, \<^verbatim>\<open>undefined\<close> (\<open>None\<close>).
\<close>

type_synonym conn = nat

type_synonym registry = "(jsval \<times> conn) list"

fun Map_get :: "registry \<Rightarrow> jsval \<Rightarrow> conn option" where
  "Map_get [] k = None"
| "Map_get ((k', v) # m) k = (if k' = k then Some v else Map_get m k)"

fun Map_set :: "jsval \<Rightarrow> conn \<Rightarrow> registry \<Rightarrow> registry" where
  "Map_set k v [] = [(k, v)]"
| "Map_set k v ((k', v') # m) = (if k' = k then (k, v) # m else (k', v') # Map_set k v m)"

fun Map_delete :: "jsval \<Rightarrow> registry \<Rightarrow> registry" where
  "Map_delete k [] = []"
| "Map_delete k ((k', v') # m) = (if k' = k then m else (k', v') # Map_delete k m)"

definition Map_keys :: "registry \<Rightarrow> jsval list" where
  "Map_keys m = map fst m"

section \<open>Server state\<close>

text \<open>
  A connection handle is an identity (\<^verbatim>\<open>connection === ws\<close>); what the \<^verbatim>\<open>ws\<close> library knows of
  each socket is kept in a table: its \<^verbatim>\<open>readyState\<close>, the frames handed to \<^verbatim>\<open>send\<close> so far, and
  whether a \<^verbatim>\<open>send\<close> on it throws at present. The calls to
  \<^verbatim>\<open>storage.updateScreenOnlineStatus(deviceKey, isOnline)\<close> and the console lines are recorded
  in the order they are made.
\<close>

datatype ready_state = CONNECTING | OPEN | CLOSING | CLOSED

record socket =
  readyState :: ready_state
  sent :: "string list"
  send_throws :: bool

datatype log_line =
    ConsoleLog string
  | ConsoleLogStatus string jsval
  | ConsoleError string

record server =
  screenConnections :: registry
  sockets :: "conn \<Rightarrow> socket"
  status_updates :: "(jsval \<times> bool) list"
  console :: "log_line list"

text \<open>How a handler body ends: it returns, or an exception leaves it; either way with the
  state it has reached.\<close>

datatype 's outcome = Normal 's | Thrown 's

fun state_of :: "'s outcome \<Rightarrow> 's" where
  "state_of (Normal s) = s"
| "state_of (Thrown s) = s"

fun returns :: "'s outcome \<Rightarrow> bool" where
  "returns (Normal s) = True"
| "returns (Thrown s) = False"

definition log_to :: "log_line \<Rightarrow> 'a server_scheme \<Rightarrow> 'a server_scheme" where
  "log_to l st = st\<lparr>console := console st @ [l]\<rparr>"

definition updateScreenOnlineStatus :: "jsval \<Rightarrow> bool \<Rightarrow> 'a server_scheme \<Rightarrow> 'a server_scheme" where
  "updateScreenOnlineStatus deviceKey isOnline st =
     st\<lparr>status_updates := status_updates st @ [(deviceKey, isOnline)]\<rparr>"

section \<open>Inbound messages (first route file)\<close>

text \<open>
  The body of the \<^verbatim>\<open>try\<close> block of \<^verbatim>\<open>ws.on('message', ...)\<close>. Its inputs from outside the
  repository: \<open>parsed\<close>, the result of \<^verbatim>\<open>JSON.parse(message.toString())\<close> (\<open>None\<close> when it throws
  a SyntaxError); \<open>resolves\<close>, whether the awaited storage call resolves; \<open>ts\<close>, the string
  conversion of a template literal (\<open>None\<close> when it throws a TypeError, as it does for an
  object with an own \<^verbatim>\<open>toString\<close> property). The registry is written before the \<^verbatim>\<open>await\<close>; the
  await only delays the console line.
\<close>

definition message_try ::
  "(jsval \<Rightarrow> string option) \<Rightarrow> conn \<Rightarrow> jsval option \<Rightarrow> bool \<Rightarrow> 'a server_scheme
     \<Rightarrow> 'a server_scheme outcome" where
  "message_try ts ws parsed resolves st =
     (case parsed of
        None \<Rightarrow> Thrown st
      | Some data \<Rightarrow>
         (case get_property data ''type'' of
            None \<Rightarrow> Thrown st
          | Some ty \<Rightarrow>
             if ty = JString ''PLAYER_REGISTER'' then
               (case get_property data ''payload'' of
                  None \<Rightarrow> Thrown st
                | Some payload \<Rightarrow>
               (case get_property payload ''deviceKey'' of
                  None \<Rightarrow> Thrown st
                | Some deviceKey \<Rightarrow>
                   if truthy deviceKey then
                     (let st1 = st\<lparr>screenConnections :=
                                    Map_set deviceKey ws (screenConnections st)\<rparr>;
                          st2 = updateScreenOnlineStatus deviceKey True st1
                      in if \<not> resolves then Thrown st2
                         else (case ts deviceKey of
                                 None \<Rightarrow> Thrown st2
                               | Some s \<Rightarrow>
                                  Normal (log_to (ConsoleLog (''Player registered: '' @ s)) st2)))
                   else Normal st))
             else if ty = JString ''PLAYER_STATUS'' then
               (case get_property data ''payload'' of
                  None \<Rightarrow> Thrown st
                | Some payload \<Rightarrow>
               (case get_property payload ''deviceKey'' of
                  None \<Rightarrow> Thrown st
                | Some deviceKey \<Rightarrow>
               (case get_property payload ''status'' of
                  None \<Rightarrow> Thrown st
                | Some status \<Rightarrow>
                   (case ts deviceKey of
                      None \<Rightarrow> Thrown st
                    | Some s \<Rightarrow>
                       Normal (log_to (ConsoleLogStatus (''Player '' @ s @ '' status:'') status) st)))))
             else Normal st))"

text \<open>The handler: the \<^verbatim>\<open>catch\<close> clause logs the error and the handler returns.\<close>

definition on_message ::
  "(jsval \<Rightarrow> string option) \<Rightarrow> conn \<Rightarrow> jsval option \<Rightarrow> bool \<Rightarrow> 'a server_scheme
     \<Rightarrow> 'a server_scheme outcome" where
  "on_message ts ws parsed resolves st =
     (case message_try ts ws parsed resolves st of
        Thrown st' \<Rightarrow> Normal (log_to (ConsoleError ''Error handling WebSocket message:'') st')
      | Normal st' \<Rightarrow> Normal st')"

section \<open>Connection close (first route file)\<close>

text \<open>
  \<^verbatim>\<open>for (const [deviceKey, connection] of Array.from(screenConnections.entries()))\<close>: the scan
  runs over a snapshot of the entries, in insertion order, and stops (\<^verbatim>\<open>break\<close>) at the first
  entry whose value is the closing socket. The storage call is not awaited. The template
  literal of the log line is outside any \<^verbatim>\<open>try\<close>.
\<close>

fun close_scan ::
  "(jsval \<Rightarrow> string option) \<Rightarrow> conn \<Rightarrow> registry \<Rightarrow> 'a server_scheme \<Rightarrow> 'a server_scheme outcome" where
  "close_scan ts ws [] st = Normal st"
| "close_scan ts ws ((deviceKey, connection) # entries) st =
     (if connection = ws then
        (let st1 = st\<lparr>screenConnections := Map_delete deviceKey (screenConnections st)\<rparr>;
             st2 = updateScreenOnlineStatus deviceKey False st1
         in case ts deviceKey of
              None \<Rightarrow> Thrown st2
            | Some s \<Rightarrow> Normal (log_to (ConsoleLog (''Player disconnected: '' @ s)) st2))
      else close_scan ts ws entries st)"

definition on_close ::
  "(jsval \<Rightarrow> string option) \<Rightarrow> conn \<Rightarrow> 'a server_scheme \<Rightarrow> 'a server_scheme outcome" where
  "on_close ts ws st = close_scan ts ws (screenConnections st) st"

section \<open>Broadcast dispatch (POST /api/broadcasts)\<close>

text \<open>
  \<^verbatim>\<open>screen.send(message)\<close> on a socket: the frame is handed to the library, or the call throws.
\<close>

definition ws_send :: "conn \<Rightarrow> string \<Rightarrow> 'a server_scheme \<Rightarrow> 'a server_scheme outcome" where
  "ws_send screen message st =
     (if send_throws (sockets st screen) then Thrown st
      else Normal (st\<lparr>sockets := (sockets st)
             (screen := (sockets st screen)\<lparr>sent := sent (sockets st screen) @ [message]\<rparr>)\<rparr>))"

text \<open>
  \<^verbatim>\<open>validatedData.screenIds.forEach(screenId => { ... })\<close>. The elements are strings: the zod
  schema derived from the \<^verbatim>\<open>text\<close> array column has validated them. There is no
  \<^verbatim>\<open>try\<close> inside the callback, so an exception of \<^verbatim>\<open>send\<close> leaves \<^verbatim>\<open>forEach\<close>.
\<close>

fun forEach_screenIds :: "string \<Rightarrow> string list \<Rightarrow> 'a server_scheme \<Rightarrow> 'a server_scheme outcome" where
  "forEach_screenIds message [] st = Normal st"
| "forEach_screenIds message (screenId # rest) st =
     (case Map_get (screenConnections st) (JString screenId) of
        None \<Rightarrow> forEach_screenIds message rest st
      | Some screen \<Rightarrow>
         if readyState (sockets st screen) = OPEN then
           (case ws_send screen message st of
              Thrown st' \<Rightarrow> Thrown st'
            | Normal st' \<Rightarrow> forEach_screenIds message rest st')
         else forEach_screenIds message rest st)"

text \<open>
  The route handler. What its collaborators answer is its input: \<open>None\<close> is a call that
  throws or rejects; \<^verbatim>\<open>getUser\<close> and \<^verbatim>\<open>getPlaylistWithItems\<close> may also resolve to
  \<^verbatim>\<open>undefined\<close> (\<open>Some None\<close>). The persisted broadcast record and the audit log belong to the
  storage layer and are not part of the state here. The handler suspends at each \<^verbatim>\<open>await\<close>,
  but the awaited calls change nothing of the state below and the loop runs without
  suspension: \<open>st\<close> is the state in which the loop starts.
\<close>

record user =
  user_id :: string
  organizationId :: "string option"

record insert_broadcast =
  playlistId :: string
  screenIds :: "string list"

record broadcast_io =
  getUser :: "user option option"
  schema_parse :: "insert_broadcast option"
  createBroadcast :: "string option"
  getPlaylistWithItems :: "jsval option option"
  JSON_stringify :: "jsval \<Rightarrow> string"
  updateBroadcast :: bool
  createAuditLog :: bool

datatype response = Broadcast_json string | Status_message nat string

text \<open>The object literal that is serialized; the addresses of its two fresh objects play no
  role.\<close>

definition load_playlist :: "jsval \<Rightarrow> string \<Rightarrow> jsval" where
  "load_playlist playlist broadcast_id =
     JObject 0 [(''type'', JString ''LOAD_PLAYLIST''),
                (''payload'', JObject 0 [(''playlist'', playlist),
                                         (''broadcastId'', JString broadcast_id)])]"

text \<open>\<^verbatim>\<open>!user?.organizationId\<close>: no user, a null organization and an empty one are all falsy.\<close>

definition user_organization :: "user option \<Rightarrow> string option" where
  "user_organization u =
     (case u of
        None \<Rightarrow> None
      | Some usr \<Rightarrow>
         (case organizationId usr of
            None \<Rightarrow> None
          | Some org \<Rightarrow> if org = [] then None else Some org))"

definition broadcasts_try ::
  "broadcast_io \<Rightarrow> 'a server_scheme \<Rightarrow> 'a server_scheme + response \<times> 'a server_scheme" where
  "broadcasts_try io st =
     (case getUser io of
        None \<Rightarrow> Inl st
      | Some u \<Rightarrow>
     (case user_organization u of
        None \<Rightarrow> Inr (Status_message 400 ''User not associated with organization'', st)
      | Some org \<Rightarrow>
     (case schema_parse io of
        None \<Rightarrow> Inl st
      | Some validatedData \<Rightarrow>
     (case createBroadcast io of
        None \<Rightarrow> Inl st
      | Some broadcast_id \<Rightarrow>
     (case getPlaylistWithItems io of
        None \<Rightarrow> Inl st
      | Some None \<Rightarrow> Inr (Status_message 404 ''Playlist not found'', st)
      | Some (Some playlist) \<Rightarrow>
         (let message = JSON_stringify io (load_playlist playlist broadcast_id)
          in case forEach_screenIds message (screenIds validatedData) st of
               Thrown st' \<Rightarrow> Inl st'
             | Normal st' \<Rightarrow>
                if \<not> updateBroadcast io then Inl st'
                else if \<not> createAuditLog io then Inl st'
                else Inr (Broadcast_json broadcast_id, st')))))))"

definition post_api_broadcasts ::
  "broadcast_io \<Rightarrow> 'a server_scheme \<Rightarrow> response \<times> 'a server_scheme" where
  "post_api_broadcasts io st =
     (case broadcasts_try io st of
        Inl st' \<Rightarrow> (Status_message 500 ''Failed to create broadcast'',
                    log_to (ConsoleError ''Error creating broadcast:'') st')
      | Inr r \<Rightarrow> r)"

section \<open>The server as a sequence of events (first route file)\<close>

text \<open>
  Node runs the handlers one at a time. \<open>Transport\<close> is the \<^verbatim>\<open>ws\<close> library changing what it
  knows of a socket; on \<open>Close\<close> it has set \<^verbatim>\<open>readyState\<close> to \<^verbatim>\<open>CLOSED\<close> before it emits the
  event. An exception that leaves a listener is uncaught and ends the process, so the run
  stops there.
\<close>

datatype event =
    Connection conn
  | Message conn "jsval option" bool
  | Close conn
  | Broadcast broadcast_io
  | Transport conn ready_state bool

definition initial :: server where
  "initial = \<lparr>screenConnections = [],
              sockets = (\<lambda>c. \<lparr>readyState = CONNECTING, sent = [], send_throws = False\<rparr>),
              status_updates = [], console = []\<rparr>"

definition set_socket :: "conn \<Rightarrow> ready_state \<Rightarrow> bool \<Rightarrow> 'a server_scheme \<Rightarrow> 'a server_scheme" where
  "set_socket c rs t st =
     st\<lparr>sockets := (sockets st)(c := (sockets st c)\<lparr>readyState := rs, send_throws := t\<rparr>)\<rparr>"

fun step :: "(jsval \<Rightarrow> string option) \<Rightarrow> event \<Rightarrow> server \<Rightarrow> server outcome" where
  "step ts (Connection c) st =
     Normal (log_to (ConsoleLog ''New WebSocket connection'') (set_socket c OPEN False st))"
| "step ts (Message c parsed resolves) st = on_message ts c parsed resolves st"
| "step ts (Close c) st = on_close ts c (set_socket c CLOSED (send_throws (sockets st c)) st)"
| "step ts (Broadcast io) st = Normal (snd (post_api_broadcasts io st))"
| "step ts (Transport c rs t) st = Normal (set_socket c rs t st)"

fun run :: "(jsval \<Rightarrow> string option) \<Rightarrow> event list \<Rightarrow> server \<Rightarrow> server outcome" where
  "run ts [] st = Normal st"
| "run ts (ev # evs) st =
     (case step ts ev st of
        Thrown st' \<Rightarrow> Thrown st'
      | Normal st' \<Rightarrow> run ts evs st')"

text \<open>
  The registry operation that a message asks for, in the words of the specification: a
  registration announcement (\<^verbatim>\<open>PLAYER_REGISTER\<close>) carrying a non-empty \<^verbatim>\<open>deviceKey\<close>.
\<close>

definition register_request :: "jsval option \<Rightarrow> jsval option" where
  "register_request parsed =
     (case parsed of
        Some (JObject a kvs) \<Rightarrow>
         (if map_of kvs ''type'' = Some (JString ''PLAYER_REGISTER'') then
            (case map_of kvs ''payload'' of
               Some (JObject b props) \<Rightarrow>
                (case map_of props ''deviceKey'' of
                   Some k \<Rightarrow> if truthy k then Some k else None
                 | None \<Rightarrow> None)
             | _ \<Rightarrow> None)
          else None)
      | _ \<Rightarrow> None)"

text \<open>The connection that registered most recently under a key, over the events so far.\<close>

fun registered :: "event list \<Rightarrow> jsval \<Rightarrow> conn option" where
  "registered [] k = None"
| "registered (ev # evs) k =
     (case registered evs k of
        Some c \<Rightarrow> Some c
      | None \<Rightarrow>
         (case ev of
            Message c parsed resolves \<Rightarrow> if register_request parsed = Some k then Some c else None
          | _ \<Rightarrow> None))"

text \<open>
  What the registry holds against what has been asked of it: no key occurs twice, and a
  key is looked up to the connection that registered under it most recently, unless that
  connection has closed since and the key is absent.
\<close>

definition tracks :: "event list \<Rightarrow> registry \<Rightarrow> bool" where
  "tracks evs reg \<longleftrightarrow>
     distinct (Map_keys reg)
     \<and> (\<forall>k. Map_get reg k = registered evs k
            \<or> (Map_get reg k = None \<and> (\<exists>c. registered evs k = Some c \<and> Close c \<in> set evs)))"

section \<open>The second route file: REGISTER_SCREEN\<close>

text \<open>
  The second route file keeps the handlers above and puts a further \<^verbatim>\<open>message\<close> listener
  before them. On a \<^verbatim>\<open>REGISTER_SCREEN\<close> message with a truthy \<^verbatim>\<open>screenId\<close> it stores the socket
  under that key and adds a \<^verbatim>\<open>close\<close> listener to the socket, a closure over the key:
  \<^verbatim>\<open>ws.on("close", () => { screenConnections.delete(data.screenId); ... })\<close>.
  The state records, per socket, the keys of the closures added so far.
\<close>

record server2 = server +
  close_listeners :: "conn \<Rightarrow> jsval list"

definition register_screen_try ::
  "(jsval \<Rightarrow> string option) \<Rightarrow> conn \<Rightarrow> jsval option \<Rightarrow> server2 \<Rightarrow> server2 outcome" where
  "register_screen_try ts ws parsed st =
     (case parsed of
        None \<Rightarrow> Thrown st
      | Some data \<Rightarrow>
         (case get_property data ''type'' of
            None \<Rightarrow> Thrown st
          | Some ty \<Rightarrow>
             if ty = JString ''REGISTER_SCREEN'' then
               (case get_property data ''screenId'' of
                  None \<Rightarrow> Thrown st
                | Some screenId \<Rightarrow>
                   if truthy screenId then
                     (let st1 = st\<lparr>screenConnections :=
                                    Map_set screenId ws (screenConnections st)\<rparr>
                      in case ts screenId of
                           None \<Rightarrow> Thrown st1
                         | Some s \<Rightarrow>
                            (let st2 = log_to (ConsoleLog (''Screen connected: '' @ s)) st1
                             in Normal (st2\<lparr>close_listeners := (close_listeners st2)
                                          (ws := close_listeners st2 ws @ [screenId])\<rparr>)))
                   else Normal st)
             else Normal st))"

definition on_message_register_screen ::
  "(jsval \<Rightarrow> string option) \<Rightarrow> conn \<Rightarrow> jsval option \<Rightarrow> server2 \<Rightarrow> server2 outcome" where
  "on_message_register_screen ts ws parsed st =
     (case register_screen_try ts ws parsed st of
        Thrown st' \<Rightarrow> Normal (log_to (ConsoleError ''Error handling WebSocket message:'') st')
      | Normal st' \<Rightarrow> Normal st')"

text \<open>
  A \<^verbatim>\<open>message\<close> event runs both listeners in the order they were added; each parses the
  frame for itself (\<open>parsed1\<close>, \<open>parsed2\<close>).
\<close>

definition emit_message2 ::
  "(jsval \<Rightarrow> string option) \<Rightarrow> conn \<Rightarrow> jsval option \<Rightarrow> jsval option \<Rightarrow> bool \<Rightarrow> server2
     \<Rightarrow> server2 outcome" where
  "emit_message2 ts ws parsed1 parsed2 resolves st =
     (case on_message_register_screen ts ws parsed1 st of
        Thrown st' \<Rightarrow> Thrown st'
      | Normal st' \<Rightarrow> on_message ts ws parsed2 resolves st')"

fun close_by_key :: "(jsval \<Rightarrow> string option) \<Rightarrow> jsval list \<Rightarrow> server2 \<Rightarrow> server2 outcome" where
  "close_by_key ts [] st = Normal st"
| "close_by_key ts (screenId # listeners) st =
     (let st1 = st\<lparr>screenConnections := Map_delete screenId (screenConnections st)\<rparr>
      in case ts screenId of
           None \<Rightarrow> Thrown st1
         | Some s \<Rightarrow>
            close_by_key ts listeners (log_to (ConsoleLog (''Screen disconnected: '' @ s)) st1))"

text \<open>
  A \<^verbatim>\<open>close\<close> event: the scan by value was added when the connection was accepted, so it
  runs first; the closures by key follow in the order they were added.
\<close>

definition emit_close2 :: "(jsval \<Rightarrow> string option) \<Rightarrow> conn \<Rightarrow> server2 \<Rightarrow> server2 outcome" where
  "emit_close2 ts ws st =
     (case on_close ts ws st of
        Thrown st' \<Rightarrow> Thrown st'
      | Normal st' \<Rightarrow> close_by_key ts (close_listeners st' ws) st')"

definition initial2 :: server2 where
  "initial2 = server.extend initial (server2.fields (\<lambda>c. []))"

section \<open>Values for the worked examples\<close>

text \<open>
  The string conversion of a template literal on the values of the examples: a string is
  itself, and an object with an own \<^verbatim>\<open>toString\<close> property makes the conversion throw. (Numbers
  and arrays, whose conversion needs the printing of doubles, do not occur in them.)
\<close>

fun example_ts :: "jsval \<Rightarrow> string option" where
  "example_ts (JString s) = Some s"
| "example_ts JUndefined = Some ''undefined''"
| "example_ts JNull = Some ''null''"
| "example_ts (JBool b) = Some (if b then ''true'' else ''false'')"
| "example_ts (JObject a kvs) =
     (if map_of kvs ''toString'' = None then Some ''[object Object]'' else None)"
| "example_ts v = None"

definition player_register :: "string \<Rightarrow> jsval" where
  "player_register k =
     JObject 1 [(''type'', JString ''PLAYER_REGISTER''),
                (''payload'', JObject 2 [(''deviceKey'', JString k)])]"

definition register_screen :: "string \<Rightarrow> jsval" where
  "register_screen k =
     JObject 1 [(''type'', JString ''REGISTER_SCREEN''), (''screenId'', JString k)]"

definition player_status :: "string \<Rightarrow> jsval \<Rightarrow> jsval" where
  "player_status k status =
     JObject 1 [(''type'', JString ''PLAYER_STATUS''),
                (''payload'', JObject 2 [(''deviceKey'', JString k), (''status'', status)])]"

text \<open>A request whose collaborators all answer: playlist \<open>P\<close>, broadcast id \<open>x\<close>.\<close>

definition example_playlist :: jsval where
  "example_playlist = JObject 3 [(''name'', JString ''P'')]"

definition example_io :: "string list \<Rightarrow> broadcast_io" where
  "example_io ids =
     \<lparr>getUser = Some (Some \<lparr>user_id = ''u1'', organizationId = Some ''org1''\<rparr>),
      schema_parse = Some \<lparr>playlistId = ''p1'', screenIds = ids\<rparr>,
      createBroadcast = Some ''x'',
      getPlaylistWithItems = Some (Some example_playlist),
      JSON_stringify = (\<lambda>v. if v = load_playlist example_playlist ''x''
                             then ''LOAD_PLAYLIST P x'' else []),
      updateBroadcast = True,
      createAuditLog = True\<rparr>"

text \<open>Two players, registered as \<open>A\<close> and \<open>B\<close> on open sockets 1 and 2; \<open>t\<close> says whether a
  send on socket 1 throws.\<close>

definition two_players :: "bool \<Rightarrow> server" where
  "two_players t =
     \<lparr>screenConnections = [(JString ''A'', 1), (JString ''B'', 2)],
      sockets = (sockets initial)
        (1 := \<lparr>readyState = OPEN, sent = [], send_throws = t\<rparr>,
         2 := \<lparr>readyState = OPEN, sent = [], send_throws = False\<rparr>),
      status_updates = [(JString ''A'', True), (JString ''B'', True)],
      console = [ConsoleLog ''New WebSocket connection'',
                 ConsoleLog ''New WebSocket connection'',
                 ConsoleLog ''Player registered: A'',
                 ConsoleLog ''Player registered: B'']\<rparr>"

text \<open>In the second route file: socket 1 announces itself by \<^verbatim>\<open>REGISTER_SCREEN\<close> under the key
  \<open>K\<close>, then socket 2 registers under the same key by \<^verbatim>\<open>PLAYER_REGISTER\<close>.\<close>

definition superseded :: server2 where
  "superseded =
     state_of (emit_message2 example_ts 2
       (Some (player_register ''K'')) (Some (player_register ''K'')) True
       (state_of (emit_message2 example_ts 1
          (Some (register_screen ''K'')) (Some (register_screen ''K'')) True initial2)))"

section \<open>Properties of the Map operations\<close>

lemma Map_get_set: "Map_get (Map_set k v m) k' = (if k' = k then Some v else Map_get m k')"
  by (induction m) auto

lemma Map_keys_set_list:
  "Map_keys (Map_set k v m) = (if k \<in> set (Map_keys m) then Map_keys m else Map_keys m @ [k])"
  unfolding Map_keys_def by (induction m) (fastforce simp: image_iff)+

lemma Map_keys_set: "set (Map_keys (Map_set k v m)) = insert k (set (Map_keys m))"
  by (auto simp: Map_keys_set_list)

lemma distinct_Map_set: "distinct (Map_keys m) \<Longrightarrow> distinct (Map_keys (Map_set k v m))"
  by (simp add: Map_keys_set_list)

lemma Map_set_idem: "Map_set k v (Map_set k v m) = Map_set k v m"
  by (induction m) auto

lemma Map_get_delete_other: "k' \<noteq> k \<Longrightarrow> Map_get (Map_delete k m) k' = Map_get m k'"
  by (induction m) auto

lemma Map_keys_delete: "Map_keys (Map_delete k m) = remove1 k (Map_keys m)"
  unfolding Map_keys_def by (induction m) auto

lemma distinct_Map_delete: "distinct (Map_keys m) \<Longrightarrow> distinct (Map_keys (Map_delete k m))"
  by (simp add: Map_keys_delete)

lemma Map_get_None_iff: "Map_get m k = None \<longleftrightarrow> k \<notin> set (Map_keys m)"
  unfolding Map_keys_def by (induction m k rule: Map_get.induct) auto

lemma Map_get_delete_same: "distinct (Map_keys m) \<Longrightarrow> Map_get (Map_delete k m) k = None"
  by (simp add: Map_get_None_iff Map_keys_delete)

lemma Map_get_Some_mem: "Map_get m k = Some c \<Longrightarrow> (k, c) \<in> set m"
  by (induction m) (auto split: if_splits)

lemma Map_get_mem: "distinct (Map_keys m) \<Longrightarrow> (k, c) \<in> set m \<Longrightarrow> Map_get m k = Some c"
proof (induction m)
  case Nil
  then show ?case by simp
next
  case (Cons e m)
  obtain k' v' where e: "e = (k', v')" by (cases e)
  show ?case
  proof (cases "k' = k")
    case True
    have "k \<notin> fst ` set m" using Cons.prems(1) by (simp add: e True Map_keys_def)
    then have "(k, c) \<notin> set m" by force
    with Cons.prems(2) show ?thesis by (simp add: e True)
  next
    case False
    with Cons show ?thesis by (simp add: e Map_keys_def)
  qed
qed

lemma Map_delete_split:
  "k \<notin> fst ` set xs \<Longrightarrow> Map_delete k (xs @ (k, c) # ys) = xs @ ys"
  by (induction xs) auto


lemma count_list_distinct: "distinct xs \<Longrightarrow> x \<in> set xs \<Longrightarrow> count_list xs x = 1"
  by (induction xs) (auto simp: count_list_0_iff)

section \<open>Effects of the handlers on the state\<close>

lemma log_to_simps [simp]:
  "screenConnections (log_to l st) = screenConnections st"
  "sockets (log_to l st) = sockets st"
  "status_updates (log_to l st) = status_updates st"
  "console (log_to l st) = console st @ [l]"
  by (simp_all add: log_to_def)

lemma updateScreenOnlineStatus_simps [simp]:
  "screenConnections (updateScreenOnlineStatus k b st) = screenConnections st"
  "sockets (updateScreenOnlineStatus k b st) = sockets st"
  "status_updates (updateScreenOnlineStatus k b st) = status_updates st @ [(k, b)]"
  "console (updateScreenOnlineStatus k b st) = console st"
  by (simp_all add: updateScreenOnlineStatus_def)

lemma on_message_returns: "returns (on_message ts ws parsed resolves st)"
  by (simp add: on_message_def split: outcome.splits)

lemma message_try_register:
  assumes "get_property data ''type'' = Some (JString ''PLAYER_REGISTER'')"
    and "get_property data ''payload'' = Some payload"
    and "get_property payload ''deviceKey'' = Some k"
    and "truthy k"
  shows "screenConnections (state_of (on_message ts ws (Some data) resolves st))
         = Map_set k ws (screenConnections st)"
    and "status_updates (state_of (on_message ts ws (Some data) resolves st))
         = status_updates st @ [(k, True)]"
    and "sockets (state_of (on_message ts ws (Some data) resolves st)) = sockets st"
  using assms by (simp_all add: on_message_def message_try_def Let_def split: option.splits)

lemma close_scan_skip:
  "ws \<notin> snd ` set xs \<Longrightarrow> close_scan ts ws (xs @ rest) st = close_scan ts ws rest st"
  by (induction xs) auto

lemma close_scan_hit:
  "screenConnections (state_of (close_scan ts ws ((k, ws) # ys) st))
     = Map_delete k (screenConnections st)"
  "status_updates (state_of (close_scan ts ws ((k, ws) # ys) st))
     = status_updates st @ [(k, False)]"
  "sockets (state_of (close_scan ts ws ((k, ws) # ys) st)) = sockets st"
  by (simp_all add: Let_def split: option.splits)

section \<open>Effects of the dispatch loop\<close>

lemma forEach_frame:
  "screenConnections (state_of (forEach_screenIds m ids st)) = screenConnections st
   \<and> status_updates (state_of (forEach_screenIds m ids st)) = status_updates st
   \<and> console (state_of (forEach_screenIds m ids st)) = console st
   \<and> (\<forall>c. readyState (sockets (state_of (forEach_screenIds m ids st)) c)
            = readyState (sockets st c)
          \<and> send_throws (sockets (state_of (forEach_screenIds m ids st)) c)
            = send_throws (sockets st c))"
proof (induction ids arbitrary: st)
  case Nil
  show ?case by simp
next
  case (Cons s ids)
  show ?case
  proof (cases "Map_get (screenConnections st) (JString s)")
    case None
    then show ?thesis using Cons.IH [of st] by simp
  next
    case (Some screen)
    show ?thesis
    proof (cases "readyState (sockets st screen) = OPEN \<and> \<not> send_throws (sockets st screen)")
      case True
      let ?st1 = "st\<lparr>sockets := (sockets st)
             (screen := (sockets st screen)\<lparr>sent := sent (sockets st screen) @ [m]\<rparr>)\<rparr>"
      from True Some have "forEach_screenIds m (s # ids) st = forEach_screenIds m ids ?st1"
        by (simp add: ws_send_def)
      then show ?thesis using Cons.IH [of ?st1] by simp
    next
      case False
      then show ?thesis using Some Cons.IH [of st] by (auto simp: ws_send_def)
    qed
  qed
qed

lemma forEach_sent:
  assumes "\<forall>s \<in> set ids. \<forall>c. Map_get (screenConnections st) (JString s) = Some c
             \<and> readyState (sockets st c) = OPEN \<longrightarrow> \<not> send_throws (sockets st c)"
  shows "returns (forEach_screenIds m ids st)
       \<and> (\<forall>c. sent (sockets (state_of (forEach_screenIds m ids st)) c) =
            sent (sockets st c) @
            replicate (length (filter (\<lambda>s. Map_get (screenConnections st) (JString s) = Some c
                                          \<and> readyState (sockets st c) = OPEN) ids)) m)"
  using assms
proof (induction ids arbitrary: st)
  case Nil
  show ?case by simp
next
  case (Cons s ids)
  show ?case
  proof (cases "Map_get (screenConnections st) (JString s)")
    case None
    have "\<forall>s \<in> set ids. \<forall>c. Map_get (screenConnections st) (JString s) = Some c
             \<and> readyState (sockets st c) = OPEN \<longrightarrow> \<not> send_throws (sockets st c)"
      using Cons.prems by simp
    from Cons.IH [OF this] None show ?thesis by simp
  next
    case (Some screen)
    have rest: "\<forall>s \<in> set ids. \<forall>c. Map_get (screenConnections st) (JString s) = Some c
             \<and> readyState (sockets st c) = OPEN \<longrightarrow> \<not> send_throws (sockets st c)"
      using Cons.prems by simp
    show ?thesis
    proof (cases "readyState (sockets st screen) = OPEN")
      case True
      with Cons.prems Some have nt: "\<not> send_throws (sockets st screen)" by simp
      let ?st1 = "st\<lparr>sockets := (sockets st)
             (screen := (sockets st screen)\<lparr>sent := sent (sockets st screen) @ [m]\<rparr>)\<rparr>"
      have unfold: "forEach_screenIds m (s # ids) st = forEach_screenIds m ids ?st1"
        using True Some nt by (simp add: ws_send_def)
      have "\<forall>s \<in> set ids. \<forall>c. Map_get (screenConnections ?st1) (JString s) = Some c
             \<and> readyState (sockets ?st1 c) = OPEN \<longrightarrow> \<not> send_throws (sockets ?st1 c)"
        using rest by simp
      from Cons.IH [OF this] show ?thesis
        unfolding unfold using Some True by (auto simp: replicate_append_same)
    next
      case False
      with Cons.IH [OF rest] Some show ?thesis by auto
    qed
  qed
qed

lemma forEach_sent_only:
  "sent (sockets (state_of (forEach_screenIds m ids st)) c) \<noteq> sent (sockets st c)
   \<Longrightarrow> \<exists>s \<in> set ids. Map_get (screenConnections st) (JString s) = Some c
          \<and> readyState (sockets st c) = OPEN"
proof (induction ids arbitrary: st)
  case Nil
  then show ?case by simp
next
  case (Cons s ids)
  show ?case
  proof (cases "Map_get (screenConnections st) (JString s)")
    case None
    with Cons.prems have "sent (sockets (state_of (forEach_screenIds m ids st)) c)
        \<noteq> sent (sockets st c)" by simp
    from Cons.IH [OF this] show ?thesis by auto
  next
    case (Some screen)
    show ?thesis
    proof (cases "readyState (sockets st screen) = OPEN \<and> \<not> send_throws (sockets st screen)")
      case True
      let ?st1 = "st\<lparr>sockets := (sockets st)
             (screen := (sockets st screen)\<lparr>sent := sent (sockets st screen) @ [m]\<rparr>)\<rparr>"
      have unfold: "forEach_screenIds m (s # ids) st = forEach_screenIds m ids ?st1"
        using True Some by (simp add: ws_send_def)
      show ?thesis
      proof (cases "screen = c")
        case True
        with Some \<open>readyState (sockets st screen) = OPEN \<and> \<not> send_throws (sockets st screen)\<close>
        show ?thesis by auto
      next
        case False
        show ?thesis
        proof (cases "sent (sockets (state_of (forEach_screenIds m ids ?st1)) c)
                        = sent (sockets ?st1 c)")
          case True
          with Cons.prems unfold False show ?thesis by simp
        next
          case False
          from Cons.IH [OF this] show ?thesis by (auto split: if_splits)
        qed
      qed
    next
      case False
      with Cons.prems Some
      have "sent (sockets (state_of (forEach_screenIds m ids st)) c) \<noteq> sent (sockets st c)"
        by (auto simp: ws_send_def split: if_splits)
      from Cons.IH [OF this] show ?thesis by auto
    qed
  qed
qed

lemma forEach_registry:
  "forEach_screenIds m ids st = Normal st' \<Longrightarrow> screenConnections st' = screenConnections st"
  "forEach_screenIds m ids st = Thrown st' \<Longrightarrow> screenConnections st' = screenConnections st"
  using forEach_frame [of m ids st] by simp_all

lemma post_api_broadcasts_registry:
  "screenConnections (snd (post_api_broadcasts io st)) = screenConnections st"
  by (auto simp: post_api_broadcasts_def broadcasts_try_def Let_def forEach_registry
      split: option.splits outcome.splits sum.splits if_splits)

lemma post_api_broadcasts_sent_only:
  assumes "sent (sockets (snd (post_api_broadcasts io st)) c) \<noteq> sent (sockets st c)"
  shows "\<exists>v. schema_parse io = Some v
           \<and> (\<exists>s \<in> set (screenIds v). Map_get (screenConnections st) (JString s) = Some c
                 \<and> readyState (sockets st c) = OPEN)"
proof -
  note defs = post_api_broadcasts_def broadcasts_try_def
  from assms obtain u where u: "getUser io = Some u"
    by (cases "getUser io") (auto simp: defs)
  from assms u obtain org where org: "user_organization u = Some org"
    by (cases "user_organization u") (auto simp: defs)
  from assms u org obtain v where v: "schema_parse io = Some v"
    by (cases "schema_parse io") (auto simp: defs)
  from assms u org v obtain b where b: "createBroadcast io = Some b"
    by (cases "createBroadcast io") (auto simp: defs)
  from assms u org v b obtain p where p: "getPlaylistWithItems io = Some (Some p)"
    by (cases "getPlaylistWithItems io") (auto simp: defs split: option.splits)
  let ?loop = "forEach_screenIds (JSON_stringify io (load_playlist p b)) (screenIds v) st"
  have "sockets (snd (post_api_broadcasts io st)) = sockets (state_of ?loop)"
    using u org v b p by (cases ?loop) (simp_all add: defs)
  with assms have "sent (sockets (state_of ?loop) c) \<noteq> sent (sockets st c)"
    by simp
  from forEach_sent_only [OF this] v show ?thesis by auto
qed

section \<open>The registry over a run of events\<close>

lemma on_message_registry:
  "screenConnections (state_of (on_message ts ws parsed resolves st)) =
     (case register_request parsed of
        None \<Rightarrow> screenConnections st
      | Some k \<Rightarrow> Map_set k ws (screenConnections st))"
proof (cases parsed)
  case None
  then show ?thesis by (simp add: on_message_def message_try_def register_request_def)
next
  case (Some data)
  show ?thesis
  proof (cases data)
    case (JObject a kvs)
    show ?thesis
    proof (cases "map_of kvs ''type'' = Some (JString ''PLAYER_REGISTER'')")
      case True
      show ?thesis
      proof (cases "map_of kvs ''payload''")
        case None
        with True Some JObject show ?thesis
          by (simp add: on_message_def message_try_def register_request_def)
      next
        case (Some payload)
        with True \<open>parsed = Some data\<close> JObject show ?thesis
          by (cases payload)
             (auto simp: on_message_def message_try_def register_request_def Let_def
                   split: option.splits)
      qed
    next
      case False
      with Some JObject show ?thesis
        by (auto simp: on_message_def message_try_def register_request_def Let_def
            split: option.splits)
    qed
  qed (simp_all add: Some on_message_def message_try_def register_request_def)
qed

lemma on_close_effect:
  assumes "distinct (Map_keys (screenConnections st))"
  shows "on_close ts ws st = Normal st
       \<or> (\<exists>k. Map_get (screenConnections st) k = Some ws
              \<and> screenConnections (state_of (on_close ts ws st))
                  = Map_delete k (screenConnections st)
              \<and> status_updates (state_of (on_close ts ws st))
                  = status_updates st @ [(k, False)])"
proof (cases "\<exists>e \<in> set (screenConnections st). snd e = ws")
  case False
  then have "ws \<notin> snd ` set (screenConnections st)" by auto
  then have "on_close ts ws st = Normal st"
    using close_scan_skip [of ws "screenConnections st" ts "[]" st] by (simp add: on_close_def)
  then show ?thesis by simp
next
  case True
  then obtain xs e ys where split: "screenConnections st = xs @ e # ys"
    and e: "snd e = ws" and first: "\<forall>y \<in> set xs. snd y \<noteq> ws"
    using split_list_first_prop [of "screenConnections st" "\<lambda>e. snd e = ws"] by blast
  obtain k where k: "e = (k, ws)" using e by (cases e) auto
  have "ws \<notin> snd ` set xs" using first by auto
  then have scan: "on_close ts ws st = close_scan ts ws ((k, ws) # ys) st"
    by (simp add: on_close_def split k close_scan_skip)
  have "(k, ws) \<in> set (screenConnections st)" by (simp add: split k)
  with assms have "Map_get (screenConnections st) k = Some ws" by (rule Map_get_mem)
  moreover have "screenConnections (state_of (on_close ts ws st))
                  = Map_delete k (screenConnections st)"
    by (simp add: scan close_scan_hit del: close_scan.simps)
  moreover have "status_updates (state_of (on_close ts ws st))
                  = status_updates st @ [(k, False)]"
    by (simp add: scan close_scan_hit del: close_scan.simps)
  ultimately show ?thesis by blast
qed

lemma run_snoc:
  "run ts (evs @ [ev]) st =
     (case run ts evs st of Thrown st' \<Rightarrow> Thrown st' | Normal st' \<Rightarrow> step ts ev st')"
  by (induction evs arbitrary: st) (auto split: outcome.splits)

lemma registered_snoc:
  "registered (evs @ [ev]) k =
     (case ev of
        Message c parsed resolves \<Rightarrow>
          if register_request parsed = Some k then Some c else registered evs k
      | _ \<Rightarrow> registered evs k)"
  by (induction evs) (auto split: event.splits option.splits)

lemma step_registry:
  assumes "distinct (Map_keys (screenConnections st))"
  shows "case ev of
           Message c parsed resolves \<Rightarrow>
             screenConnections (state_of (step ts ev st)) =
               (case register_request parsed of
                  None \<Rightarrow> screenConnections st
                | Some k \<Rightarrow> Map_set k c (screenConnections st))
         | Close c \<Rightarrow>
             screenConnections (state_of (step ts ev st)) = screenConnections st
             \<or> (\<exists>k. Map_get (screenConnections st) k = Some c
                    \<and> screenConnections (state_of (step ts ev st))
                        = Map_delete k (screenConnections st))
         | _ \<Rightarrow> screenConnections (state_of (step ts ev st)) = screenConnections st"
proof (cases ev)
  case (Close c)
  let ?st = "set_socket c CLOSED (send_throws (sockets st c)) st"
  have reg: "screenConnections ?st = screenConnections st" by (simp add: set_socket_def)
  with assms have "distinct (Map_keys (screenConnections ?st))" by simp
  from on_close_effect [OF this, of ts c] show ?thesis by (auto simp: Close reg)
qed (simp_all add: on_message_registry post_api_broadcasts_registry set_socket_def)

lemma registry_tracks_registrations:
  "run ts evs initial = Normal st \<Longrightarrow> tracks evs (screenConnections st)"
proof (induction evs arbitrary: st rule: rev_induct)
  case Nil
  then show ?case by (auto simp: tracks_def initial_def Map_keys_def)
next
  case (snoc ev evs)
  from snoc.prems obtain s where s: "run ts evs initial = Normal s"
    and st: "step ts ev s = Normal st"
    by (auto simp: run_snoc split: outcome.splits)
  from snoc.IH [OF s] have dist: "distinct (Map_keys (screenConnections s))"
    and inv: "\<And>k. Map_get (screenConnections s) k = registered evs k
            \<or> (Map_get (screenConnections s) k = None
                \<and> (\<exists>c. registered evs k = Some c \<and> Close c \<in> set evs))"
    by (auto simp: tracks_def)
  note eff = step_registry [OF dist, where ev = ev and ts = ts, unfolded st state_of.simps]
  show ?case
  proof (cases ev)
    case (Message c parsed resolves)
    show ?thesis
    proof (cases "register_request parsed")
      case None
      with eff Message have "screenConnections st = screenConnections s" by simp
      with dist inv show ?thesis
        by (auto simp: tracks_def registered_snoc Message None)
    next
      case (Some k)
      with eff Message have reg: "screenConnections st = Map_set k c (screenConnections s)"
        by simp
      show ?thesis
        unfolding tracks_def reg
      proof (intro conjI allI)
        show "distinct (Map_keys (Map_set k c (screenConnections s)))"
          using dist by (rule distinct_Map_set)
        fix k'
        show "Map_get (Map_set k c (screenConnections s)) k' = registered (evs @ [ev]) k'
            \<or> (Map_get (Map_set k c (screenConnections s)) k' = None
                \<and> (\<exists>c. registered (evs @ [ev]) k' = Some c \<and> Close c \<in> set (evs @ [ev])))"
          using inv [of k'] by (auto simp: Map_get_set registered_snoc Message Some)
      qed
    qed
  next
    case (Close c)
    from eff Close consider "screenConnections st = screenConnections s"
      | k where "Map_get (screenConnections s) k = Some c"
          "screenConnections st = Map_delete k (screenConnections s)"
      by auto
    then show ?thesis
    proof cases
      case 1
      with dist inv show ?thesis
        by (auto simp: tracks_def registered_snoc Close)
    next
      case 2
      from 2(1) inv [of k] have regk: "registered evs k = Some c" by auto
      show ?thesis
        unfolding tracks_def 2(2)
      proof (intro conjI allI)
        show "distinct (Map_keys (Map_delete k (screenConnections s)))"
          using dist by (rule distinct_Map_delete)
        fix k'
        show "Map_get (Map_delete k (screenConnections s)) k' = registered (evs @ [ev]) k'
            \<or> (Map_get (Map_delete k (screenConnections s)) k' = None
                \<and> (\<exists>c. registered (evs @ [ev]) k' = Some c \<and> Close c \<in> set (evs @ [ev])))"
        proof (cases "k' = k")
          case True
          then show ?thesis
            using regk dist by (simp add: Map_get_delete_same registered_snoc Close)
        next
          case False
          then show ?thesis
            using inv [of k'] by (auto simp: Map_get_delete_other registered_snoc Close)
        qed
      qed
    qed
  next
    case (Connection c)
    with eff have "screenConnections st = screenConnections s" by simp
    with dist inv show ?thesis
      by (auto simp: tracks_def registered_snoc Connection)
  next
    case (Broadcast io)
    with eff have "screenConnections st = screenConnections s" by simp
    with dist inv show ?thesis
      by (auto simp: tracks_def registered_snoc Broadcast)
  next
    case (Transport c rs t)
    with eff have "screenConnections st = screenConnections s" by simp
    with dist inv show ?thesis
      by (auto simp: tracks_def registered_snoc Transport)
  qed
qed

section \<open>Registration without a device key\<close>

text \<open>
  Claim C6. A \<^verbatim>\<open>PLAYER_REGISTER\<close> message whose payload has no \<^verbatim>\<open>deviceKey\<close>, or an empty one,
  does nothing: the body of the \<^verbatim>\<open>try\<close> block returns without an exception, and the handler
  returns the state it was given, so the registry, the storage calls, the sockets and the
  console are all as before.
\<close>

theorem register_without_deviceKey_noop:
  assumes "get_property data ''type'' = Some (JString ''PLAYER_REGISTER'')"
    and "get_property data ''payload'' = Some (JObject a props)"
    and "map_of props ''deviceKey'' = None \<or> map_of props ''deviceKey'' = Some (JString [])"
  shows "message_try ts ws (Some data) resolves st = Normal st
       \<and> on_message ts ws (Some data) resolves st = Normal st"
  using assms by (auto simp: on_message_def message_try_def)

theorem register_without_deviceKey_noop_witness:
  "get_property (JObject 1 [(''type'', JString ''PLAYER_REGISTER''),
                            (''payload'', JObject 2 [(''deviceKey'', JString [])])]) ''type''
     = Some (JString ''PLAYER_REGISTER'')
   \<and> on_message example_ts 5
        (Some (JObject 1 [(''type'', JString ''PLAYER_REGISTER''),
                          (''payload'', JObject 2 [(''deviceKey'', JString [])])])) True initial
     = Normal initial"
  using register_without_deviceKey_noop
    [of "JObject 1 [(''type'', JString ''PLAYER_REGISTER''),
                    (''payload'', JObject 2 [(''deviceKey'', JString [])])]"
        2 "[(''deviceKey'', JString [])]" example_ts 5 True initial]
  by simp

section \<open>Messages that are not handled\<close>

text \<open>
  Claim C7, as stated, has every unparseable message and every message with an unknown type
  tag logged before it is ignored. A parseable message with an unknown tag is not logged:
  the handler returns the state it was given.
\<close>

theorem unknown_type_not_logged:
  "on_message example_ts 5 (Some (JObject 1 [(''type'', JString ''FOO'')])) True initial
     = Normal initial
   \<and> console (state_of (on_message example_ts 5
        (Some (JObject 1 [(''type'', JString ''FOO'')])) True initial)) = []"
  by (simp add: on_message_def message_try_def initial_def)

text \<open>
  Claim C7, amended. For a message that is not parseable, or whose type tag is neither
  \<^verbatim>\<open>PLAYER_REGISTER\<close> nor \<^verbatim>\<open>PLAYER_STATUS\<close>, the handler returns (no exception leaves it) and
  leaves the registry, the sockets and the storage calls as they were. It writes one error
  line to the console when the body is not parseable (or is the JSON \<^verbatim>\<open>null\<close>, whose \<^verbatim>\<open>type\<close>
  cannot be read), and nothing otherwise.
\<close>

theorem unhandled_message_ignored:
  assumes "parsed = None
         \<or> (\<exists>data. parsed = Some data
              \<and> get_property data ''type'' \<noteq> Some (JString ''PLAYER_REGISTER'')
              \<and> get_property data ''type'' \<noteq> Some (JString ''PLAYER_STATUS''))"
  shows "on_message ts ws parsed resolves st =
           Normal (if parsed = None \<or> parsed = Some JNull \<or> parsed = Some JUndefined
                   then log_to (ConsoleError ''Error handling WebSocket message:'') st
                   else st)"
proof (cases parsed)
  case None
  then show ?thesis by (simp add: on_message_def message_try_def)
next
  case (Some data)
  with assms have ty: "get_property data ''type'' \<noteq> Some (JString ''PLAYER_REGISTER'')"
    "get_property data ''type'' \<noteq> Some (JString ''PLAYER_STATUS'')" by auto
  show ?thesis
  proof (cases "get_property data ''type''")
    case None
    then have "data = JNull \<or> data = JUndefined" by (cases data) auto
    with None Some show ?thesis by (auto simp: on_message_def message_try_def)
  next
    case (Some ty')
    then have "data \<noteq> JNull" "data \<noteq> JUndefined" by auto
    with Some ty \<open>parsed = Some data\<close> show ?thesis
      by (simp add: on_message_def message_try_def)
  qed
qed

theorem unhandled_message_ignored_witness:
  "on_message example_ts 5 None True initial
     = Normal (log_to (ConsoleError ''Error handling WebSocket message:'') initial)
   \<and> on_message example_ts 5 (Some (JObject 1 [(''type'', JString ''PING'')])) True initial
     = Normal initial"
  using unhandled_message_ignored [of None example_ts 5 True initial]
    unhandled_message_ignored
      [of "Some (JObject 1 [(''type'', JString ''PING'')])" example_ts 5 True initial]
  by simp

section \<open>Status messages\<close>

text \<open>
  Claim C8. A \<^verbatim>\<open>PLAYER_STATUS\<close> message leaves the registry as it was (every lookup gives what
  it gave before) and triggers no storage call: the handler returns, and the only change to
  the state is one console line. When the payload can be destructured and its \<^verbatim>\<open>deviceKey\<close>
  converts to a string, that line is the status line, \<^verbatim>\<open>Player <deviceKey> status:\<close> followed
  by the \<^verbatim>\<open>status\<close> of the payload; when the payload is \<^verbatim>\<open>undefined\<close> or \<^verbatim>\<open>null\<close>, or the
  conversion throws, it is the error line of the \<^verbatim>\<open>catch\<close> clause.
\<close>

theorem player_status_leaves_registry:
  assumes "get_property data ''type'' = Some (JString ''PLAYER_STATUS'')"
  shows "\<exists>st'. on_message ts ws (Some data) resolves st = Normal st'
           \<and> (\<forall>k. Map_get (screenConnections st') k = Map_get (screenConnections st) k)
           \<and> status_updates st' = status_updates st
           \<and> (\<exists>line. st' = log_to line st)
           \<and> (\<forall>payload deviceKey status s.
                 get_property data ''payload'' = Some payload
                 \<and> get_property payload ''deviceKey'' = Some deviceKey
                 \<and> get_property payload ''status'' = Some status
                 \<and> ts deviceKey = Some s
                 \<longrightarrow> st' = log_to (ConsoleLogStatus (''Player '' @ s @ '' status:'') status) st)
           \<and> (\<forall>payload deviceKey.
                 get_property data ''payload'' = Some payload
                 \<and> (get_property payload ''deviceKey'' = None
                    \<or> get_property payload ''deviceKey'' = Some deviceKey \<and> ts deviceKey = None)
                 \<longrightarrow> st' = log_to (ConsoleError ''Error handling WebSocket message:'') st)"
proof -
  from assms obtain payload where payload: "get_property data ''payload'' = Some payload"
    by (cases data) auto
  show ?thesis
  proof (cases "get_property payload ''deviceKey''")
    case None
    with assms payload show ?thesis
      by (simp add: on_message_def message_try_def) blast
  next
    case (Some deviceKey)
    then obtain status where status: "get_property payload ''status'' = Some status"
      by (cases payload) auto
    show ?thesis
    proof (cases "ts deviceKey")
      case None
      with assms payload Some status show ?thesis
        by (simp add: on_message_def message_try_def) blast
    next
      case (Some s)
      with assms payload \<open>get_property payload ''deviceKey'' = Some deviceKey\<close> status
      show ?thesis
        by (simp add: on_message_def message_try_def) blast
    qed
  qed
qed

theorem player_status_leaves_registry_witness:
  "get_property (player_status ''A'' (JString ''ok'')) ''type'' = Some (JString ''PLAYER_STATUS'')
   \<and> on_message example_ts 5 (Some (player_status ''A'' (JString ''ok''))) True
        (initial\<lparr>screenConnections := [(JString ''A'', 5)]\<rparr>)
     = Normal (log_to (ConsoleLogStatus ''Player A status:'' (JString ''ok''))
                (initial\<lparr>screenConnections := [(JString ''A'', 5)]\<rparr>))
   \<and> Map_get (screenConnections (state_of (on_message example_ts 5
        (Some (player_status ''A'' (JString ''ok''))) True
        (initial\<lparr>screenConnections := [(JString ''A'', 5)]\<rparr>)))) (JString ''A'') = Some 5
   \<and> status_updates (state_of (on_message example_ts 5
        (Some (player_status ''A'' (JString ''ok''))) True
        (initial\<lparr>screenConnections := [(JString ''A'', 5)]\<rparr>))) = []"
proof -
  let ?data = "player_status ''A'' (JString ''ok'')"
  let ?st = "initial\<lparr>screenConnections := [(JString ''A'', 5)]\<rparr>"
  have h: "get_property ?data ''type'' = Some (JString ''PLAYER_STATUS'')"
    by (simp add: player_status_def)
  have p: "get_property ?data ''payload''
             = Some (JObject 2 [(''deviceKey'', JString ''A''), (''status'', JString ''ok'')])
         \<and> get_property (JObject 2 [(''deviceKey'', JString ''A''), (''status'', JString ''ok'')])
             ''deviceKey'' = Some (JString ''A'')
         \<and> get_property (JObject 2 [(''deviceKey'', JString ''A''), (''status'', JString ''ok'')])
             ''status'' = Some (JString ''ok'')
         \<and> example_ts (JString ''A'') = Some ''A''"
    by (simp add: player_status_def)
  from player_status_leaves_registry [OF h, of example_ts 5 True ?st]
  obtain st' where run: "on_message example_ts 5 (Some ?data) True ?st = Normal st'"
    and get: "\<forall>k. Map_get (screenConnections st') k = Map_get (screenConnections ?st) k"
    and upd: "status_updates st' = status_updates ?st"
    and line: "\<forall>payload deviceKey status s.
                 get_property ?data ''payload'' = Some payload
                 \<and> get_property payload ''deviceKey'' = Some deviceKey
                 \<and> get_property payload ''status'' = Some status
                 \<and> example_ts deviceKey = Some s
                 \<longrightarrow> st' = log_to (ConsoleLogStatus (''Player '' @ s @ '' status:'') status) ?st"
    by blast
  from line p have "st' = log_to (ConsoleLogStatus (''Player '' @ ''A'' @ '' status:'')
                                   (JString ''ok'')) ?st"
    by blast
  then have st': "st' = log_to (ConsoleLogStatus ''Player A status:'' (JString ''ok'')) ?st"
    by simp
  from get have "Map_get (screenConnections st') (JString ''A'') = Some 5" by simp
  moreover from upd have "status_updates st' = []" by (simp add: initial_def)
  ultimately show ?thesis using h run st' by simp
qed

section \<open>Registering twice\<close>

text \<open>
  Claim C9. Registering the same key on the same connection twice in a row leaves the
  registry as one registration leaves it: the key is looked up to that connection and
  occurs once among the keys.
\<close>

theorem register_twice_idempotent:
  assumes "get_property data ''type'' = Some (JString ''PLAYER_REGISTER'')"
    and "get_property data ''payload'' = Some payload"
    and "get_property payload ''deviceKey'' = Some k"
    and "truthy k"
    and "distinct (Map_keys (screenConnections st))"
  shows "screenConnections (state_of (on_message ts c (Some data) r2
            (state_of (on_message ts c (Some data) r1 st))))
         = screenConnections (state_of (on_message ts c (Some data) r1 st))
       \<and> Map_get (screenConnections (state_of (on_message ts c (Some data) r2
            (state_of (on_message ts c (Some data) r1 st))))) k = Some c
       \<and> count_list (Map_keys (screenConnections (state_of (on_message ts c (Some data) r2
            (state_of (on_message ts c (Some data) r1 st)))))) k = 1"
proof -
  let ?once = "state_of (on_message ts c (Some data) r1 st)"
  let ?twice = "state_of (on_message ts c (Some data) r2 ?once)"
  have once: "screenConnections ?once = Map_set k c (screenConnections st)"
    using assms(1-4) by (rule message_try_register(1))
  have twice: "screenConnections ?twice = Map_set k c (screenConnections ?once)"
    using assms(1-4) by (rule message_try_register(1))
  have same: "screenConnections ?twice = screenConnections ?once"
    by (simp add: once twice Map_set_idem)
  have "distinct (Map_keys (screenConnections ?twice))"
    using assms(5) by (simp add: same once distinct_Map_set)
  moreover have "k \<in> set (Map_keys (screenConnections ?twice))"
    by (simp add: same once Map_keys_set)
  ultimately have "count_list (Map_keys (screenConnections ?twice)) k = 1"
    by (rule count_list_distinct)
  moreover have "Map_get (screenConnections ?twice) k = Some c"
    by (simp add: same once Map_get_set)
  ultimately show ?thesis using same by simp
qed

theorem register_twice_idempotent_witness:
  "get_property (player_register ''A'') ''type'' = Some (JString ''PLAYER_REGISTER'')
   \<and> get_property (player_register ''A'') ''payload''
       = Some (JObject 2 [(''deviceKey'', JString ''A'')])
   \<and> get_property (JObject 2 [(''deviceKey'', JString ''A'')]) ''deviceKey''
       = Some (JString ''A'')
   \<and> truthy (JString ''A'')
   \<and> distinct (Map_keys (screenConnections initial))
   \<and> screenConnections (state_of (on_message example_ts 5 (Some (player_register ''A'')) True
          (state_of (on_message example_ts 5 (Some (player_register ''A'')) True initial))))
       = screenConnections
          (state_of (on_message example_ts 5 (Some (player_register ''A'')) True initial))
   \<and> Map_get (screenConnections (state_of (on_message example_ts 5
          (Some (player_register ''A'')) True
          (state_of (on_message example_ts 5 (Some (player_register ''A'')) True initial)))))
        (JString ''A'') = Some 5
   \<and> count_list (Map_keys (screenConnections (state_of (on_message example_ts 5
          (Some (player_register ''A'')) True
          (state_of (on_message example_ts 5 (Some (player_register ''A'')) True initial))))))
        (JString ''A'') = 1"
proof -
  have h: "get_property (player_register ''A'') ''type'' = Some (JString ''PLAYER_REGISTER'')"
    "get_property (player_register ''A'') ''payload''
       = Some (JObject 2 [(''deviceKey'', JString ''A'')])"
    "get_property (JObject 2 [(''deviceKey'', JString ''A'')]) ''deviceKey''
       = Some (JString ''A'')"
    "truthy (JString ''A'')"
    "distinct (Map_keys (screenConnections initial))"
    by (simp_all add: player_register_def initial_def Map_keys_def)
  show ?thesis
    using h register_twice_idempotent [OF h, of example_ts 5 True True] by blast
qed

section \<open>What a close removes\<close>

text \<open>
  Claim C10. The close handler removes at most one entry: none when no entry holds the
  closing connection, and otherwise the first entry, in insertion order, that holds it; it
  marks offline the key of that entry and no other. So when the connection is registered
  under a second key, that key stays mapped to the closed connection and no storage call is
  made for it.
\<close>

theorem close_removes_first_match:
  assumes "distinct (Map_keys (screenConnections st))"
  shows "(ws \<notin> snd ` set (screenConnections st) \<longrightarrow> on_close ts ws st = Normal st)
       \<and> (\<forall>xs k ys. screenConnections st = xs @ (k, ws) # ys \<and> ws \<notin> snd ` set xs \<longrightarrow>
            screenConnections (state_of (on_close ts ws st)) = xs @ ys
          \<and> status_updates (state_of (on_close ts ws st)) = status_updates st @ [(k, False)]
          \<and> (\<forall>k2. (k2, ws) \<in> set ys \<longrightarrow>
                k2 \<noteq> k \<and> Map_get (screenConnections (state_of (on_close ts ws st))) k2 = Some ws))"
proof (intro conjI impI allI)
  assume "ws \<notin> snd ` set (screenConnections st)"
  then show "on_close ts ws st = Normal st"
    using close_scan_skip [of ws "screenConnections st" ts "[]" st] by (simp add: on_close_def)
next
  fix xs k ys
  assume "screenConnections st = xs @ (k, ws) # ys \<and> ws \<notin> snd ` set xs"
  then have reg: "screenConnections st = xs @ (k, ws) # ys" and first: "ws \<notin> snd ` set xs"
    by simp_all
  have scan: "on_close ts ws st = close_scan ts ws ((k, ws) # ys) st"
    using first by (simp add: on_close_def reg close_scan_skip)
  have fresh: "k \<notin> fst ` set xs" "k \<notin> fst ` set ys"
    using assms by (auto simp: reg Map_keys_def)
  show del: "screenConnections (state_of (on_close ts ws st)) = xs @ ys"
    using fresh by (simp add: scan close_scan_hit reg Map_delete_split del: close_scan.simps)
  show "status_updates (state_of (on_close ts ws st)) = status_updates st @ [(k, False)]"
    by (simp add: scan close_scan_hit del: close_scan.simps)
  fix k2
  assume k2: "(k2, ws) \<in> set ys"
  then show "k2 \<noteq> k" using fresh(2) by force
  have "distinct (Map_keys (xs @ ys))" using assms by (simp add: reg Map_keys_def)
  then show "Map_get (screenConnections (state_of (on_close ts ws st))) k2 = Some ws"
    using k2 by (simp add: del Map_get_mem)
qed

theorem close_removes_first_match_witness:
  "distinct (Map_keys (screenConnections
      (initial\<lparr>screenConnections := [(JString ''A'', 1), (JString ''B'', 1)]\<rparr>)))
   \<and> screenConnections (state_of (on_close example_ts 1
        (initial\<lparr>screenConnections := [(JString ''A'', 1), (JString ''B'', 1)]\<rparr>)))
       = [(JString ''B'', 1)]
   \<and> status_updates (state_of (on_close example_ts 1
        (initial\<lparr>screenConnections := [(JString ''A'', 1), (JString ''B'', 1)]\<rparr>)))
       = [(JString ''A'', False)]
   \<and> Map_get (screenConnections (state_of (on_close example_ts 1
        (initial\<lparr>screenConnections := [(JString ''A'', 1), (JString ''B'', 1)]\<rparr>))))
        (JString ''B'') = Some 1"
proof -
  let ?st = "initial\<lparr>screenConnections := [(JString ''A'', 1), (JString ''B'', 1)]\<rparr>"
  have h: "distinct (Map_keys (screenConnections ?st))"
    by (simp add: Map_keys_def)
  have s: "screenConnections ?st = [] @ (JString ''A'', 1) # [(JString ''B'', 1)]
           \<and> 1 \<notin> snd ` set ([] :: registry)"
    by simp
  note T = close_removes_first_match [OF h, of 1 example_ts, THEN conjunct2, rule_format, OF s]
  have "(JString ''B'', 1) \<in> set [(JString ''B'', 1::nat)]" by simp
  with T h show ?thesis by (simp add: initial_def)
qed

section \<open>Delivery of a broadcast\<close>

text \<open>
  Claim C5, as stated, has each registered and open target sent exactly one message. The
  loop sends once per element of the list, so a target that the request lists twice is sent
  the message twice.
\<close>

theorem duplicate_target_sent_twice:
  "Map_get (screenConnections (two_players False)) (JString ''A'') = Some 1
   \<and> readyState (sockets (two_players False) 1) = OPEN
   \<and> sent (sockets (two_players False) 1) = []
   \<and> fst (post_api_broadcasts (example_io [''A'', ''A'']) (two_players False))
       = Broadcast_json ''x''
   \<and> sent (sockets (snd (post_api_broadcasts (example_io [''A'', ''A''])
        (two_players False))) 1)
       = [''LOAD_PLAYLIST P x'', ''LOAD_PLAYLIST P x'']"
  by (simp add: post_api_broadcasts_def broadcasts_try_def example_io_def user_organization_def
      ws_send_def two_players_def initial_def Let_def)

text \<open>
  Claim C5, amended. When the collaborators of the route answer and no send throws, the
  request is answered with the broadcast, nothing is logged, and every connection receives
  the one serialization of \<^verbatim>\<open>{type:'LOAD_PLAYLIST', payload:{playlist, broadcastId}}\<close> once for
  each element of the target list that the registry maps to it while it is open, and
  nothing else: a target listed once is sent exactly one message, and targets that are
  absent or not open are skipped, so a list with no registered member sends nothing.
\<close>

theorem broadcast_delivery:
  assumes "getUser io = Some u" and "user_organization u = Some org"
    and "schema_parse io = Some v" and "createBroadcast io = Some b"
    and "getPlaylistWithItems io = Some (Some playlist)"
    and "updateBroadcast io" and "createAuditLog io"
    and "\<forall>s \<in> set (screenIds v). \<forall>c. Map_get (screenConnections st) (JString s) = Some c
             \<and> readyState (sockets st c) = OPEN \<longrightarrow> \<not> send_throws (sockets st c)"
  shows "fst (post_api_broadcasts io st) = Broadcast_json b
       \<and> (\<forall>c. sent (sockets (snd (post_api_broadcasts io st)) c) =
            sent (sockets st c) @
            replicate (length (filter (\<lambda>s. Map_get (screenConnections st) (JString s) = Some c
                                          \<and> readyState (sockets st c) = OPEN) (screenIds v)))
              (JSON_stringify io (load_playlist playlist b)))
       \<and> console (snd (post_api_broadcasts io st)) = console st"
proof -
  let ?m = "JSON_stringify io (load_playlist playlist b)"
  from forEach_sent [OF assms(8), of ?m]
  obtain st' where run: "forEach_screenIds ?m (screenIds v) st = Normal st'"
    and sent: "\<forall>c. sent (sockets st' c) = sent (sockets st c) @
            replicate (length (filter (\<lambda>s. Map_get (screenConnections st) (JString s) = Some c
                                          \<and> readyState (sockets st c) = OPEN) (screenIds v))) ?m"
    by (cases "forEach_screenIds ?m (screenIds v) st") auto
  have post: "post_api_broadcasts io st = (Broadcast_json b, st')"
    using assms(1-7) run by (simp add: post_api_broadcasts_def broadcasts_try_def)
  have "console st' = console st"
    using forEach_frame [of ?m "screenIds v" st] by (simp add: run)
  with post sent show ?thesis by simp
qed

theorem broadcast_delivery_witness:
  "fst (post_api_broadcasts (example_io [''A'', ''B'', ''C'']) (two_players False))
     = Broadcast_json ''x''
   \<and> sent (sockets (snd (post_api_broadcasts (example_io [''A'', ''B'', ''C''])
        (two_players False))) 1) = [''LOAD_PLAYLIST P x'']
   \<and> sent (sockets (snd (post_api_broadcasts (example_io [''A'', ''B'', ''C''])
        (two_players False))) 2) = [''LOAD_PLAYLIST P x'']
   \<and> sent (sockets (snd (post_api_broadcasts (example_io [''A'', ''B'', ''C''])
        (two_players False))) 3) = []"
proof -
  let ?io = "example_io [''A'', ''B'', ''C'']"
  have h: "getUser ?io = Some (Some \<lparr>user_id = ''u1'', organizationId = Some ''org1''\<rparr>)"
    "user_organization (Some \<lparr>user_id = ''u1'', organizationId = Some ''org1''\<rparr>) = Some ''org1''"
    "schema_parse ?io = Some \<lparr>playlistId = ''p1'', screenIds = [''A'', ''B'', ''C'']\<rparr>"
    "createBroadcast ?io = Some ''x''"
    "getPlaylistWithItems ?io = Some (Some example_playlist)"
    "updateBroadcast ?io" "createAuditLog ?io"
    "\<forall>s \<in> set (screenIds \<lparr>playlistId = ''p1'', screenIds = [''A'', ''B'', ''C'']\<rparr>).
       \<forall>c. Map_get (screenConnections (two_players False)) (JString s) = Some c
          \<and> readyState (sockets (two_players False) c) = OPEN
          \<longrightarrow> \<not> send_throws (sockets (two_players False) c)"
    by (simp_all add: example_io_def user_organization_def two_players_def initial_def)
  note T = broadcast_delivery [OF h]
  have m: "JSON_stringify ?io (load_playlist example_playlist ''x'') = ''LOAD_PLAYLIST P x''"
    by (simp add: example_io_def)
  from T have "fst (post_api_broadcasts ?io (two_players False)) = Broadcast_json ''x''"
    by simp
  moreover from T [THEN conjunct2, THEN conjunct1, THEN spec, of 1]
  have "sent (sockets (snd (post_api_broadcasts ?io (two_players False))) 1)
          = [''LOAD_PLAYLIST P x'']"
    by (simp add: m) (simp add: two_players_def initial_def)
  moreover from T [THEN conjunct2, THEN conjunct1, THEN spec, of 2]
  have "sent (sockets (snd (post_api_broadcasts ?io (two_players False))) 2)
          = [''LOAD_PLAYLIST P x'']"
    by (simp add: m) (simp add: two_players_def initial_def)
  moreover from T [THEN conjunct2, THEN conjunct1, THEN spec, of 3]
  have "sent (sockets (snd (post_api_broadcasts ?io (two_players False))) 3) = []"
    by (simp add: m) (simp add: two_players_def initial_def)
  ultimately show ?thesis by simp
qed

section \<open>A send that throws\<close>

text \<open>
  Claim C1 does not hold of the route: the callback of \<^verbatim>\<open>forEach\<close> has no \<^verbatim>\<open>try\<close>, so the
  exception of one \<^verbatim>\<open>send\<close> ends the loop and is caught by the \<^verbatim>\<open>catch\<close> of the whole handler.
  Players \<open>A\<close> and \<open>B\<close> are registered on open sockets and a send to the socket of \<open>A\<close>
  throws: a broadcast to \<open>A\<close> and \<open>B\<close> sends nothing to \<open>B\<close>, logs one error for the request
  and answers 500.
\<close>

theorem send_error_aborts_dispatch:
  "run example_ts
     [Connection 1, Connection 2,
      Message 1 (Some (player_register ''A'')) True,
      Message 2 (Some (player_register ''B'')) True,
      Transport 1 OPEN True] initial = Normal (two_players True)
   \<and> Map_get (screenConnections (two_players True)) (JString ''B'') = Some 2
   \<and> readyState (sockets (two_players True) 2) = OPEN
   \<and> post_api_broadcasts (example_io [''A'', ''B'']) (two_players True)
       = (Status_message 500 ''Failed to create broadcast'',
          log_to (ConsoleError ''Error creating broadcast:'') (two_players True))
   \<and> sent (sockets (snd (post_api_broadcasts (example_io [''A'', ''B''])
        (two_players True))) 2) = []"
  by (simp add: on_message_def message_try_def player_register_def initial_def set_socket_def
      log_to_def updateScreenOnlineStatus_def fun_upd_twist two_players_def
      post_api_broadcasts_def broadcasts_try_def example_io_def user_organization_def
      ws_send_def Let_def)

section \<open>The registry invariant\<close>

text \<open>
  Claim C4. At every instant of a run of the server (registrations by \<^verbatim>\<open>PLAYER_REGISTER\<close>,
  removals on close, broadcasts and transport changes in any order) the registry holds at
  most one connection per key: no key occurs twice. A lookup that finds a connection finds
  the one registered most recently under the key, a later registration having replaced an
  earlier one; a lookup finds nothing only if nothing was registered under the key or the
  connection registered last under it has closed; and as long as no connection has closed,
  every lookup is exactly the most recent registration.
\<close>

theorem registry_invariant:
  assumes "run ts evs initial = Normal st"
  shows "distinct (Map_keys (screenConnections st))
       \<and> (\<forall>k c. Map_get (screenConnections st) k = Some c \<longrightarrow> registered evs k = Some c)
       \<and> (\<forall>k. Map_get (screenConnections st) k = None \<longrightarrow>
             registered evs k = None \<or> (\<exists>c. registered evs k = Some c \<and> Close c \<in> set evs))
       \<and> ((\<forall>c. Close c \<notin> set evs) \<longrightarrow>
             (\<forall>k. Map_get (screenConnections st) k = registered evs k))"
proof -
  from registry_tracks_registrations [OF assms]
  have keys: "distinct (Map_keys (screenConnections st))"
    and inv: "\<And>k. Map_get (screenConnections st) k = registered evs k
            \<or> (Map_get (screenConnections st) k = None
                \<and> (\<exists>c. registered evs k = Some c \<and> Close c \<in> set evs))"
    unfolding tracks_def by blast+
  show ?thesis
  proof (intro conjI allI impI)
    show "distinct (Map_keys (screenConnections st))" by (rule keys)
  next
    fix k c
    assume "Map_get (screenConnections st) k = Some c"
    with inv [of k] show "registered evs k = Some c" by auto
  next
    fix k
    assume "Map_get (screenConnections st) k = None"
    with inv [of k]
    show "registered evs k = None \<or> (\<exists>c. registered evs k = Some c \<and> Close c \<in> set evs)"
      by auto
  next
    fix k
    assume "\<forall>c. Close c \<notin> set evs"
    with inv [of k] show "Map_get (screenConnections st) k = registered evs k" by auto
  qed
qed

theorem registry_invariant_witness:
  "run example_ts
     [Connection 1, Message 1 (Some (player_register ''A'')) True,
      Connection 2, Message 2 (Some (player_register ''A'')) True] initial
   = Normal (initial\<lparr>screenConnections := [(JString ''A'', 2)],
        sockets := (sockets initial)
          (1 := \<lparr>readyState = OPEN, sent = [], send_throws = False\<rparr>,
           2 := \<lparr>readyState = OPEN, sent = [], send_throws = False\<rparr>),
        status_updates := [(JString ''A'', True), (JString ''A'', True)],
        console := [ConsoleLog ''New WebSocket connection'', ConsoleLog ''Player registered: A'',
                    ConsoleLog ''New WebSocket connection'', ConsoleLog ''Player registered: A'']\<rparr>)
   \<and> registered [Connection 1, Message 1 (Some (player_register ''A'')) True,
                  Connection 2, Message 2 (Some (player_register ''A'')) True] (JString ''A'')
       = Some 2
   \<and> Map_get [(JString ''A'', 2)] (JString ''A'') = Some 2"
proof -
  let ?evs = "[Connection 1, Message 1 (Some (player_register ''A'')) True,
               Connection 2, Message 2 (Some (player_register ''A'')) True]"
  let ?st = "initial\<lparr>screenConnections := [(JString ''A'', 2)],
        sockets := (sockets initial)
          (1 := \<lparr>readyState = OPEN, sent = [], send_throws = False\<rparr>,
           2 := \<lparr>readyState = OPEN, sent = [], send_throws = False\<rparr>),
        status_updates := [(JString ''A'', True), (JString ''A'', True)],
        console := [ConsoleLog ''New WebSocket connection'', ConsoleLog ''Player registered: A'',
                    ConsoleLog ''New WebSocket connection'', ConsoleLog ''Player registered: A'']\<rparr>"
  have h: "run example_ts ?evs initial = Normal ?st"
    by (simp add: on_message_def message_try_def player_register_def initial_def set_socket_def
        log_to_def updateScreenOnlineStatus_def fun_upd_twist)
  have g: "Map_get (screenConnections ?st) (JString ''A'') = Some 2" by simp
  from registry_invariant [OF h, THEN conjunct2, THEN conjunct1, rule_format, OF g]
  have "registered ?evs (JString ''A'') = Some 2" .
  with h show ?thesis by simp
qed

section \<open>Which targets a broadcast can reach\<close>

text \<open>
  Claim C2. The dispatch loop looks each element of \<^verbatim>\<open>screenIds\<close> up as a key of the registry,
  and the keys of the registry are the device keys that players have registered. So a
  broadcast sends nothing to a connection unless one of the strings in \<^verbatim>\<open>screenIds\<close> is the
  device key under which that connection registered: a player whose screen is named in
  \<^verbatim>\<open>screenIds\<close> by an identifier other than its device key receives no message. (That a
  screen's id differs from its device key is a hypothesis here: both are generated outside
  the handlers, the device key by \<^verbatim>\<open>randomUUID()\<close>.)
\<close>

theorem broadcast_reaches_registered_keys_only:
  assumes "run ts evs initial = Normal st"
    and "schema_parse io = Some v"
    and "\<forall>s \<in> set (screenIds v). registered evs (JString s) \<noteq> Some c"
  shows "sent (sockets (snd (post_api_broadcasts io st)) c) = sent (sockets st c)"
proof (rule ccontr)
  assume "sent (sockets (snd (post_api_broadcasts io st)) c) \<noteq> sent (sockets st c)"
  from post_api_broadcasts_sent_only [OF this] assms(2)
  obtain s where s: "s \<in> set (screenIds v)"
    and get: "Map_get (screenConnections st) (JString s) = Some c"
    by auto
  from registry_tracks_registrations [OF assms(1)] get
  have "registered evs (JString s) = Some c"
    unfolding tracks_def by (metis option.distinct(1))
  with assms(3) s show False by blast
qed

theorem broadcast_reaches_registered_keys_only_witness:
  "run example_ts [Connection 1, Message 1 (Some (player_register ''key-1'')) True] initial
     = Normal (initial\<lparr>screenConnections := [(JString ''key-1'', 1)],
          sockets := (sockets initial)
            (1 := \<lparr>readyState = OPEN, sent = [], send_throws = False\<rparr>),
          status_updates := [(JString ''key-1'', True)],
          console := [ConsoleLog ''New WebSocket connection'',
                      ConsoleLog ''Player registered: key-1'']\<rparr>)
   \<and> sent (sockets (snd (post_api_broadcasts (example_io [''screen-1''])
        (initial\<lparr>screenConnections := [(JString ''key-1'', 1)],
          sockets := (sockets initial)
            (1 := \<lparr>readyState = OPEN, sent = [], send_throws = False\<rparr>),
          status_updates := [(JString ''key-1'', True)],
          console := [ConsoleLog ''New WebSocket connection'',
                      ConsoleLog ''Player registered: key-1'']\<rparr>))) 1) = []"
proof -
  let ?evs = "[Connection 1, Message 1 (Some (player_register ''key-1'')) True]"
  let ?st = "initial\<lparr>screenConnections := [(JString ''key-1'', 1)],
          sockets := (sockets initial)
            (1 := \<lparr>readyState = OPEN, sent = [], send_throws = False\<rparr>),
          status_updates := [(JString ''key-1'', True)],
          console := [ConsoleLog ''New WebSocket connection'',
                      ConsoleLog ''Player registered: key-1'']\<rparr>"
  have h: "run example_ts ?evs initial = Normal ?st"
    by (simp add: on_message_def message_try_def player_register_def initial_def set_socket_def
        log_to_def updateScreenOnlineStatus_def)
  have v: "schema_parse (example_io [''screen-1''])
             = Some \<lparr>playlistId = ''p1'', screenIds = [''screen-1'']\<rparr>"
    by (simp add: example_io_def)
  have r: "\<forall>s \<in> set (screenIds \<lparr>playlistId = ''p1'', screenIds = [''screen-1'']\<rparr>).
             registered ?evs (JString s) \<noteq> Some 1"
    by (simp add: register_request_def player_register_def)
  from broadcast_reaches_registered_keys_only [OF h v r] h show ?thesis
    by simp
qed

section \<open>A superseded connection closes\<close>

text \<open>
  In the first route file the only close handler scans by value, and the close of a
  superseded connection leaves the newer mapping alone and makes no storage call for its
  key.
\<close>

lemma close_keeps_newer_registration:
  assumes "distinct (Map_keys (screenConnections st))"
    and "Map_get (screenConnections st) k = Some B"
    and "A \<noteq> B"
  shows "Map_get (screenConnections (state_of (on_close ts A st))) k = Some B
       \<and> (k, False) \<notin> set (drop (length (status_updates st))
                              (status_updates (state_of (on_close ts A st))))"
  using on_close_effect [OF assms(1), of ts A]
proof
  assume "on_close ts A st = Normal st"
  with assms(2) show ?thesis by simp
next
  assume "\<exists>k'. Map_get (screenConnections st) k' = Some A
              \<and> screenConnections (state_of (on_close ts A st))
                  = Map_delete k' (screenConnections st)
              \<and> status_updates (state_of (on_close ts A st))
                  = status_updates st @ [(k', False)]"
  then obtain k' where k': "Map_get (screenConnections st) k' = Some A"
    and reg: "screenConnections (state_of (on_close ts A st))
                  = Map_delete k' (screenConnections st)"
    and upd: "status_updates (state_of (on_close ts A st)) = status_updates st @ [(k', False)]"
    by blast
  from k' assms(2,3) have "k \<noteq> k'" by auto
  with assms(2) show ?thesis by (simp add: reg upd Map_get_delete_other)
qed

text \<open>
  Claim C3 does not hold of the second route file. Its \<^verbatim>\<open>REGISTER_SCREEN\<close> listener adds a
  close listener that deletes by key, whatever the key is mapped to by then. Socket 1
  announces itself under \<open>K\<close>, socket 2 then registers under \<open>K\<close>, and socket 1 closes: the
  scan by value finds no entry of socket 1, the closure then deletes \<open>K\<close>, and the mapping
  of \<open>K\<close> to socket 2 is gone, with no storage call made.
\<close>

theorem superseded_close_removes_newer_mapping:
  "returns (emit_message2 example_ts 1
      (Some (register_screen ''K'')) (Some (register_screen ''K'')) True initial2)
   \<and> returns (emit_message2 example_ts 2
      (Some (player_register ''K'')) (Some (player_register ''K'')) True
      (state_of (emit_message2 example_ts 1
         (Some (register_screen ''K'')) (Some (register_screen ''K'')) True initial2)))
   \<and> Map_get (screenConnections superseded) (JString ''K'') = Some 2
   \<and> returns (emit_close2 example_ts 1 superseded)
   \<and> Map_get (screenConnections (state_of (emit_close2 example_ts 1 superseded))) (JString ''K'')
       = None
   \<and> status_updates (state_of (emit_close2 example_ts 1 superseded)) = [(JString ''K'', True)]"
  by (simp add: superseded_def emit_message2_def on_message_register_screen_def
      register_screen_try_def on_message_def message_try_def emit_close2_def on_close_def
      register_screen_def player_register_def initial2_def initial_def
      server.extend_def server2.fields_def log_to_def updateScreenOnlineStatus_def Let_def)

end
